theory Spec2Isabelle
  imports Main "HOL-Library.Sublist" "HOL-Library.Multiset"
begin

section \<open>The tab switcher of the modals view: data model\<close>

text \<open>
  The component \<^verbatim>\<open>TabSwitcherModal\<close> keeps a snapshot of every (session, screen) pair,
  a filtered and ranked list shown to the user, and a focus cursor moved by the keyboard.
  A string is the list of its code units; the model covers code units below 256.
  The numbers \<^verbatim>\<open>sessionIdx\<close> and \<^verbatim>\<open>screenIdx\<close> are whole numbers, modelled as \<open>int\<close>.
\<close>

record SwitcherDataType =
  sessionId :: string
  sessionName :: string
  sessionIdx :: int
  screenId :: string
  screenIdx :: int
  screenName :: string
  icon :: string
  color :: string

definition MaxOptionsToDisplay :: nat where
  "MaxOptionsToDisplay = 100"

text \<open>
  The calls the component makes on its collaborators, in the order they are made:
  \<^verbatim>\<open>GlobalCommandRunner.switchScreen(screenId, sessionId)\<close> and
  \<^verbatim>\<open>GlobalModel.modalsModel.popModal()\<close>.
\<close>

datatype external_call = SwitchScreen string string | PopModal

text \<open>
  The fields of the component that its handlers read and write. The references to DOM
  elements (\<^verbatim>\<open>optionRefs\<close>, \<^verbatim>\<open>listWrapperRef\<close>) only serve scrolling and are left out.
\<close>

record TabSwitcherModal =
  options :: "SwitcherDataType list"
  sOptions :: "SwitcherDataType list"
  focusedIdx :: int
  activeSessionIdx :: int
  prevFocusedIdx :: int
  calls :: "external_call list"

text \<open>The parts of \<^verbatim>\<open>GlobalModel\<close> that \<^verbatim>\<open>componentDidMount\<close> reads.\<close>

record Session =
  ses_sessionId :: string
  ses_name :: string
  ses_sessionIdx :: int
  ses_archived :: bool

record ScreenOpts =
  tabicon :: "string option"
  tabcolor :: "string option"

record Screen =
  scr_screenId :: string
  scr_sessionId :: string
  scr_name :: string
  scr_screenIdx :: int
  scr_opts :: "ScreenOpts option"

record GlobalModel =
  activeSession_sessionIdx :: int
  sessionList :: "Session list"
  screenMap :: "Screen list"

section \<open>String operations of the host language\<close>

text \<open>
  \<^verbatim>\<open>String.prototype.toLowerCase\<close> on code units below 256: the letters A to Z and
  the capital letters of the Latin-1 block (192 to 222 except the multiplication sign 215)
  move up by 32; every other code unit stays.
\<close>

definition toLowerCase_char :: "char \<Rightarrow> char" where
  "toLowerCase_char c =
     (let n = (of_char c :: nat)
      in if (65 \<le> n \<and> n \<le> 90) \<or> (192 \<le> n \<and> n \<le> 222 \<and> n \<noteq> 215)
         then char_of (n + 32) else c)"

definition toLowerCase :: "string \<Rightarrow> string" where
  "toLowerCase s = map toLowerCase_char s"

text \<open>
  \<^verbatim>\<open>String.prototype.trim\<close> removes white space and line terminators from both ends;
  below 256 these are the code units 9 to 13, 32 and 160.
\<close>

definition isWhiteSpace :: "char \<Rightarrow> bool" where
  "isWhiteSpace c =
     (let n = (of_char c :: nat) in (9 \<le> n \<and> n \<le> 13) \<or> n = 32 \<or> n = 160)"

definition trim :: "string \<Rightarrow> string" where
  "trim s = rev (dropWhile isWhiteSpace (rev (dropWhile isWhiteSpace s)))"

text \<open>\<^verbatim>\<open>h.includes(n)\<close>: \<open>n\<close> occurs in \<open>h\<close> as a run of consecutive code units.\<close>

fun includes_str :: "string \<Rightarrow> string \<Rightarrow> bool" where
  "includes_str [] n = (n = [])"
| "includes_str (x # xs) n = (prefix n (x # xs) \<or> includes_str xs n)"

text \<open>
  \<^verbatim>\<open>s.split(c)\<close> for a separator of one code unit: the pieces between every two
  occurrences of the separator, in order; a string with k separators has k + 1 pieces.
\<close>

fun split_str :: "char \<Rightarrow> string \<Rightarrow> string list" where
  "split_str c [] = [[]]"
| "split_str c (x # xs) =
     (if x = c then [] # split_str c xs
      else (case split_str c xs of
              [] \<Rightarrow> [[x]]
            | p # ps \<Rightarrow> (x # p) # ps))"

text \<open>
  Array destructuring \<^verbatim>\<open>[a, b] = parts\<close> reads \<^verbatim>\<open>parts[0]\<close> and \<^verbatim>\<open>parts[1]\<close>; a missing
  element is \<^verbatim>\<open>undefined\<close>, which \<^verbatim>\<open>includes\<close> converts to the string \<^verbatim>\<open>"undefined"\<close>.
\<close>

definition destructure :: "string list \<Rightarrow> nat \<Rightarrow> string" where
  "destructure parts i = (if i < length parts then parts ! i else ''undefined'')"

text \<open>
  Reading \<^verbatim>\<open>arr[index]\<close> for a whole number \<^verbatim>\<open>index\<close>: the element when the index is in
  range, \<^verbatim>\<open>undefined\<close> (here \<open>None\<close>) otherwise, also for a negative index.
\<close>

definition array_get :: "'a list \<Rightarrow> int \<Rightarrow> 'a option" where
  "array_get xs i = (if 0 \<le> i \<and> i < int (length xs) then Some (xs ! nat i) else None)"

text \<open>
  \<^verbatim>\<open>Array.prototype.sort(cmp)\<close> is a stable sort: with a consistent comparison function
  the result is the one sorted arrangement that keeps tied elements in their input order.
  The model inserts each element, from the last to the first, in front of the first
  element it does not compare greater than.
\<close>

fun insert_sorted :: "('a \<Rightarrow> 'a \<Rightarrow> int) \<Rightarrow> 'a \<Rightarrow> 'a list \<Rightarrow> 'a list" where
  "insert_sorted cmp x [] = [x]"
| "insert_sorted cmp x (y # ys) =
     (if cmp x y \<le> 0 then x # y # ys else y # insert_sorted cmp x ys)"

definition array_sort :: "('a \<Rightarrow> 'a \<Rightarrow> int) \<Rightarrow> 'a list \<Rightarrow> 'a list" where
  "array_sort cmp xs = foldr (insert_sorted cmp) xs []"

section \<open>Filtering and ranking\<close>

text \<open>The body of the loop of \<^verbatim>\<open>filterOptions\<close>: whether one option matches the input.\<close>

definition tab_match :: "string \<Rightarrow> SwitcherDataType \<Rightarrow> bool" where
  "tab_match searchInput tab =
     (if includes_str searchInput ''/'' then
        (let parts = map (\<lambda>s. toLowerCase (trim s)) (split_str CHR ''/'' searchInput);
             sessionFilter = destructure parts 0;
             screenFilter = destructure parts 1
         in includes_str (toLowerCase (sessionName tab)) sessionFilter \<and>
            includes_str (toLowerCase (screenName tab)) screenFilter)
      else
        includes_str (toLowerCase (sessionName tab)) searchInput \<or>
        includes_str (toLowerCase (screenName tab)) searchInput)"

text \<open>\<^verbatim>\<open>filterOptions\<close> pushes the matching options onto a new array, in order.\<close>

definition filterOptions :: "SwitcherDataType list \<Rightarrow> string \<Rightarrow> SwitcherDataType list" where
  "filterOptions opts searchInput = filter (tab_match searchInput) opts"

text \<open>The comparison function that \<^verbatim>\<open>sortOptions\<close> hands to \<^verbatim>\<open>sort\<close>.\<close>

definition compareOptions :: "int \<Rightarrow> SwitcherDataType \<Rightarrow> SwitcherDataType \<Rightarrow> int" where
  "compareOptions act a b =
     (let aInCurrentSession = (sessionIdx a = act);
          bInCurrentSession = (sessionIdx b = act)
      in if aInCurrentSession \<and> bInCurrentSession then screenIdx a - screenIdx b
         else if aInCurrentSession then - 1
         else if bInCurrentSession then 1
         else if sessionIdx a = sessionIdx b then screenIdx a - screenIdx b
         else sessionIdx a - sessionIdx b)"

text \<open>
  \<^verbatim>\<open>sortOptions\<close> sorts the array it is given in place and returns it: a caller that
  passes \<^verbatim>\<open>this.options\<close> stores the result back into \<open>options\<close>.
\<close>

definition sortOptions :: "int \<Rightarrow> SwitcherDataType list \<Rightarrow> SwitcherDataType list" where
  "sortOptions act opts = array_sort (compareOptions act) opts"

section \<open>The component\<close>

text \<open>
  Modelled from the spec: \<^verbatim>\<open>util.isBlank\<close> is not part of the sources at hand; the icon
  and the colour default to \<^verbatim>\<open>"default"\<close> when unset, so a blank value is a missing or an
  empty string.
\<close>

definition isBlank :: "string option \<Rightarrow> bool" where
  "isBlank s = (case s of None \<Rightarrow> True | Some v \<Rightarrow> v = [])"

definition getTabIcon :: "Screen \<Rightarrow> string" where
  "getTabIcon screen =
     (case scr_opts screen of
        None \<Rightarrow> ''default''
      | Some screenOpts \<Rightarrow>
          (if \<not> isBlank (tabicon screenOpts) then the (tabicon screenOpts) else ''default''))"

definition getTabColor :: "Screen \<Rightarrow> string" where
  "getTabColor screen =
     (case scr_opts screen of
        None \<Rightarrow> ''default''
      | Some screenOpts \<Rightarrow>
          (if \<not> isBlank (tabcolor screenOpts) then the (tabcolor screenOpts) else ''default''))"

text \<open>The body of \<^verbatim>\<open>oScreens.forEach\<close>: the options one screen contributes.\<close>

definition screen_option :: "Session list \<Rightarrow> Screen \<Rightarrow> SwitcherDataType list" where
  "screen_option oSessions oScreen =
     (case find (\<lambda>s. ses_sessionId s = scr_sessionId oScreen \<and> ses_archived s = False) oSessions of
        None \<Rightarrow> []
      | Some foundSession \<Rightarrow>
          [\<lparr>sessionId = ses_sessionId foundSession,
            sessionName = ses_name foundSession,
            sessionIdx = ses_sessionIdx foundSession,
            screenId = scr_screenId oScreen,
            screenIdx = scr_screenIdx oScreen,
            screenName = scr_name oScreen,
            icon = getTabIcon oScreen,
            color = getTabColor oScreen\<rparr>])"

text \<open>
  \<^verbatim>\<open>componentDidMount\<close> on the freshly built component (\<open>options\<close> empty, both indices 0):
  it pushes every option, then sorts \<open>options\<close> in place and shows its first
  \<open>MaxOptionsToDisplay\<close> elements.
\<close>

definition componentDidMount :: "GlobalModel \<Rightarrow> TabSwitcherModal" where
  "componentDidMount g =
     (let act = activeSession_sessionIdx g;
          pushed = concat (map (screen_option (sessionList g)) (screenMap g));
          sorted_options = sortOptions act pushed
      in \<lparr>options = sorted_options,
          sOptions = take MaxOptionsToDisplay sorted_options,
          focusedIdx = 0,
          activeSessionIdx = act,
          prevFocusedIdx = 0,
          calls = []\<rparr>)"

definition setFocusedIndex :: "int \<Rightarrow> TabSwitcherModal \<Rightarrow> TabSwitcherModal" where
  "setFocusedIndex index s = s\<lparr>focusedIdx := index\<rparr>"

definition closeModal :: "TabSwitcherModal \<Rightarrow> TabSwitcherModal" where
  "closeModal s = s\<lparr>calls := calls s @ [PopModal]\<rparr>"

text \<open>
  \<^verbatim>\<open>componentDidUpdate\<close>; scrolling the focused row into view touches the DOM only and
  is left out.
\<close>

definition componentDidUpdate :: "TabSwitcherModal \<Rightarrow> TabSwitcherModal" where
  "componentDidUpdate s =
     (let currFocusedIdx = focusedIdx s;
          s1 = (if currFocusedIdx \<noteq> prevFocusedIdx s
                then s\<lparr>prevFocusedIdx := currFocusedIdx\<rparr> else s)
      in if currFocusedIdx \<ge> int (length (sOptions s1)) \<and> length (sOptions s1) > 0
         then setFocusedIndex (int (length (sOptions s1)) - 1) s1
         else s1)"

definition calculateNewIndex :: "bool \<Rightarrow> TabSwitcherModal \<Rightarrow> int" where
  "calculateNewIndex isUpKey s =
     (let currentIndex = focusedIdx s
      in if isUpKey then max (currentIndex - 1) 0
         else min (currentIndex + 1) (int (length (sOptions s)) - 1))"

definition handleSelect :: "int \<Rightarrow> TabSwitcherModal \<Rightarrow> TabSwitcherModal" where
  "handleSelect index s =
     (case array_get (sOptions s) index of
        None \<Rightarrow> s
      | Some selectedOption \<Rightarrow>
          closeModal
            (s\<lparr>calls := calls s @
                 [SwitchScreen (screenId selectedOption) (sessionId selectedOption)]\<rparr>))"

text \<open>\<^verbatim>\<open>handleKeyDown\<close>, given \<^verbatim>\<open>e.key\<close>.\<close>

definition handleKeyDown :: "string \<Rightarrow> TabSwitcherModal \<Rightarrow> TabSwitcherModal" where
  "handleKeyDown key s =
     (if key = ''Escape'' then closeModal s
      else if key = ''ArrowUp'' \<or> key = ''ArrowDown'' then
        (let newIndex = calculateNewIndex (key = ''ArrowUp'') s
         in setFocusedIndex newIndex s)
      else if key = ''Enter'' then handleSelect (focusedIdx s) s
      else s)"

definition handleSearch :: "string \<Rightarrow> TabSwitcherModal \<Rightarrow> TabSwitcherModal" where
  "handleSearch val s =
     (if val = [] then
        (let sorted_options = sortOptions (activeSessionIdx s) (options s)
         in s\<lparr>options := sorted_options,
              sOptions := take MaxOptionsToDisplay sorted_options,
              focusedIdx := 0\<rparr>)
      else
        (let filtered = filterOptions (options s) val;
             ranked = sortOptions (activeSessionIdx s) filtered;
             shown = (if length ranked > MaxOptionsToDisplay
                      then take MaxOptionsToDisplay ranked else ranked)
         in s\<lparr>sOptions := shown, focusedIdx := 0\<rparr>))"

text \<open>
  What can happen to a mounted component: a change of the search field, a key, a click on
  the row of an index, and an update cycle of the view.
\<close>

datatype event = Search string | KeyDown string | Click int | DidUpdate

fun apply_event :: "TabSwitcherModal \<Rightarrow> event \<Rightarrow> TabSwitcherModal" where
  "apply_event s (Search val) = handleSearch val s"
| "apply_event s (KeyDown key) = handleKeyDown key s"
| "apply_event s (Click index) = handleSelect index s"
| "apply_event s DidUpdate = componentDidUpdate s"

definition run :: "event list \<Rightarrow> TabSwitcherModal \<Rightarrow> TabSwitcherModal" where
  "run evs s = foldl apply_event s evs"

section \<open>Reference predicates and example data\<close>

text \<open>
  Matching as the specification words it for a query without a slash: the lower-cased
  session name or the lower-cased tab name contains the lower-cased query.
\<close>

definition spec_plain_match :: "string \<Rightarrow> SwitcherDataType \<Rightarrow> bool" where
  "spec_plain_match q opt =
     (sublist (toLowerCase q) (toLowerCase (sessionName opt)) \<or>
      sublist (toLowerCase q) (toLowerCase (screenName opt)))"

text \<open>
  Matching as the specification words it for a query with a slash: the query is cut at
  its first slash, both sides are trimmed and lower-cased, and both must be contained.
\<close>

definition spec_slash_match :: "string \<Rightarrow> SwitcherDataType \<Rightarrow> bool" where
  "spec_slash_match q opt =
     (let sessionQuery = toLowerCase (trim (takeWhile (\<lambda>x. x \<noteq> CHR ''/'') q));
          tabQuery = toLowerCase (trim (tl (dropWhile (\<lambda>x. x \<noteq> CHR ''/'') q)))
      in sublist sessionQuery (toLowerCase (sessionName opt)) \<and>
         sublist tabQuery (toLowerCase (screenName opt)))"

text \<open>\<open>options\<close> is sorted by the comparison function of \<open>sortOptions\<close>.\<close>

definition options_ranked :: "TabSwitcherModal \<Rightarrow> bool" where
  "options_ranked s =
     sorted_wrt (\<lambda>a b. compareOptions (activeSessionIdx s) a b \<le> 0) (options s)"

text \<open>
  Where the cursor can be: inside the shown list when there is one, and at 0 or at -1
  when the list is empty.
\<close>

definition focus_inv :: "TabSwitcherModal \<Rightarrow> bool" where
  "focus_inv s =
     (if sOptions s = [] then focusedIdx s = 0 \<or> focusedIdx s = - 1
      else 0 \<le> focusedIdx s \<and> focusedIdx s < int (length (sOptions s)))"

text \<open>
  The scenario of the specification: the sessions work (index 0, active) and play
  (index 1), with the tabs work/logs, work/build and play/logs.
\<close>

definition work_logs :: SwitcherDataType where
  "work_logs = \<lparr>sessionId = ''s-work'', sessionName = ''work'', sessionIdx = 0,
     screenId = ''t-logs'', screenIdx = 0, screenName = ''logs'',
     icon = ''default'', color = ''default''\<rparr>"

definition work_build :: SwitcherDataType where
  "work_build = \<lparr>sessionId = ''s-work'', sessionName = ''work'', sessionIdx = 0,
     screenId = ''t-build'', screenIdx = 1, screenName = ''build'',
     icon = ''default'', color = ''default''\<rparr>"

definition play_logs :: SwitcherDataType where
  "play_logs = \<lparr>sessionId = ''s-play'', sessionName = ''play'', sessionIdx = 1,
     screenId = ''t-plogs'', screenIdx = 0, screenName = ''logs'',
     icon = ''default'', color = ''default''\<rparr>"

definition example_model :: GlobalModel where
  "example_model = \<lparr>activeSession_sessionIdx = 0,
     sessionList =
       [\<lparr>ses_sessionId = ''s-play'', ses_name = ''play'', ses_sessionIdx = 1,
          ses_archived = False\<rparr>,
        \<lparr>ses_sessionId = ''s-work'', ses_name = ''work'', ses_sessionIdx = 0,
          ses_archived = False\<rparr>],
     screenMap =
       [\<lparr>scr_screenId = ''t-plogs'', scr_sessionId = ''s-play'', scr_name = ''logs'',
          scr_screenIdx = 0, scr_opts = None\<rparr>,
        \<lparr>scr_screenId = ''t-build'', scr_sessionId = ''s-work'', scr_name = ''build'',
          scr_screenIdx = 1, scr_opts = None\<rparr>,
        \<lparr>scr_screenId = ''t-logs'', scr_sessionId = ''s-work'', scr_name = ''logs'',
          scr_screenIdx = 0, scr_opts = Some \<lparr>tabicon = Some '''', tabcolor = None\<rparr>\<rparr>]\<rparr>"

text \<open>A model with no session and no screen.\<close>

definition empty_model :: GlobalModel where
  "empty_model = \<lparr>activeSession_sessionIdx = 0, sessionList = [], screenMap = []\<rparr>"

text \<open>The example after the user typed \<^verbatim>\<open>log\<close>.\<close>

definition searched_log :: TabSwitcherModal where
  "searched_log = handleSearch ''log'' (componentDidMount example_model)"

text \<open>A component holding 150 options, more than it may show.\<close>

definition many_options :: "SwitcherDataType list" where
  "many_options = map (\<lambda>n. work_logs\<lparr>screenIdx := int n\<rparr>) [0..<150]"

definition crowded :: TabSwitcherModal where
  "crowded = \<lparr>options = many_options, sOptions = [], focusedIdx = 0, activeSessionIdx = 0,
     prevFocusedIdx = 0, calls = []\<rparr>"

section \<open>Strings\<close>

lemma includes_str_sublist: "includes_str h n \<longleftrightarrow> sublist n h"
  by (induction h) (auto simp: sublist_Cons_right)

lemma includes_str_Nil: "includes_str h []"
  by (simp add: includes_str_sublist)

lemma includes_slash: "includes_str q ''/'' \<longleftrightarrow> CHR ''/'' \<in> set q"
  by (induction q) auto

lemma split_str_not_Nil: "split_str c s \<noteq> []"
  by (induction s) (auto split: list.splits)

lemma split_str_first:
  "c \<in> set s \<Longrightarrow>
   split_str c s = takeWhile (\<lambda>x. x \<noteq> c) s # split_str c (tl (dropWhile (\<lambda>x. x \<noteq> c) s))"
  by (induction s) (auto split: list.splits simp: split_str_not_Nil)

lemma hd_split_str: "hd (split_str c s) = takeWhile (\<lambda>x. x \<noteq> c) s"
  by (induction s) (auto split: list.splits simp: split_str_not_Nil)

lemma spec_plain_match_includes:
  "spec_plain_match q opt =
     (includes_str (toLowerCase (sessionName opt)) (toLowerCase q) \<or>
      includes_str (toLowerCase (screenName opt)) (toLowerCase q))"
  by (simp only: spec_plain_match_def includes_str_sublist)

lemma spec_slash_match_includes:
  "spec_slash_match q opt =
     (includes_str (toLowerCase (sessionName opt))
        (toLowerCase (trim (takeWhile (\<lambda>x. x \<noteq> CHR ''/'') q))) \<and>
      includes_str (toLowerCase (screenName opt))
        (toLowerCase (trim (tl (dropWhile (\<lambda>x. x \<noteq> CHR ''/'') q)))))"
  by (simp only: spec_slash_match_def Let_def includes_str_sublist)

section \<open>The sort\<close>

lemma compareOptions_total: "compareOptions act a b \<le> 0 \<or> compareOptions act b a \<le> 0"
  by (auto simp: compareOptions_def Let_def)

lemma compareOptions_trans:
  "compareOptions act a b \<le> 0 \<Longrightarrow> compareOptions act b c \<le> 0 \<Longrightarrow> compareOptions act a c \<le> 0"
  by (auto simp: compareOptions_def Let_def split: if_splits)

lemma mset_insert_sorted: "mset (insert_sorted cmp x ys) = add_mset x (mset ys)"
  by (induction ys) auto

lemma mset_array_sort: "mset (array_sort cmp xs) = mset xs"
  by (induction xs) (auto simp: array_sort_def mset_insert_sorted)

lemma set_insert_sorted: "set (insert_sorted cmp x ys) = insert x (set ys)"
  by (induction ys) auto

lemma sorted_insert_sorted:
  assumes tot: "\<And>a b. cmp a b \<le> 0 \<or> cmp b a \<le> 0"
    and tr: "\<And>a b c. cmp a b \<le> 0 \<Longrightarrow> cmp b c \<le> 0 \<Longrightarrow> cmp a c \<le> 0"
  shows "sorted_wrt (\<lambda>a b. cmp a b \<le> 0) ys \<Longrightarrow>
         sorted_wrt (\<lambda>a b. cmp a b \<le> 0) (insert_sorted cmp x ys)"
proof (induction ys)
  case Nil
  then show ?case by simp
next
  case (Cons y ys)
  show ?case
  proof (cases "cmp x y \<le> 0")
    case True
    with Cons.prems show ?thesis by (auto intro: tr)
  next
    case False
    with tot have "cmp y x \<le> 0" by blast
    with False Cons show ?thesis by (auto simp: set_insert_sorted)
  qed
qed

lemma sorted_array_sort:
  assumes tot: "\<And>a b. cmp a b \<le> 0 \<or> cmp b a \<le> 0"
    and tr: "\<And>a b c. cmp a b \<le> 0 \<Longrightarrow> cmp b c \<le> 0 \<Longrightarrow> cmp a c \<le> 0"
  shows "sorted_wrt (\<lambda>a b. cmp a b \<le> 0) (array_sort cmp xs)"
proof (induction xs)
  case Nil
  then show ?case by (simp add: array_sort_def)
next
  case (Cons x xs)
  have "array_sort cmp (x # xs) = insert_sorted cmp x (array_sort cmp xs)"
    by (simp add: array_sort_def)
  with Cons show ?case using sorted_insert_sorted [of cmp, OF tot tr] by simp
qed

text \<open>Sorting an array that is sorted already leaves it as it is.\<close>

lemma array_sort_sorted_id:
  "sorted_wrt (\<lambda>a b. cmp a b \<le> 0) xs \<Longrightarrow> array_sort cmp xs = xs"
proof (induction xs)
  case Nil
  then show ?case by (simp add: array_sort_def)
next
  case (Cons x xs)
  then have "array_sort cmp xs = xs" by simp
  then have "array_sort cmp (x # xs) = insert_sorted cmp x xs"
    by (simp add: array_sort_def)
  also have "\<dots> = x # xs" using Cons.prems by (cases xs) auto
  finally show ?case .
qed

lemma sortOptions_sorted:
  "sorted_wrt (\<lambda>a b. compareOptions act a b \<le> 0) (sortOptions act opts)"
  unfolding sortOptions_def
proof (rule sorted_array_sort)
  show "compareOptions act a b \<le> 0 \<or> compareOptions act b a \<le> 0" for a b
    by (rule compareOptions_total)
  show "compareOptions act a b \<le> 0 \<Longrightarrow> compareOptions act b c \<le> 0 \<Longrightarrow> compareOptions act a c \<le> 0"
    for a b c by (rule compareOptions_trans)
qed

lemma mset_sortOptions: "mset (sortOptions act opts) = mset opts"
  by (simp add: sortOptions_def mset_array_sort)

lemma length_sortOptions: "length (sortOptions act opts) = length opts"
  using mset_sortOptions [of act opts] by (metis size_mset)

lemma distinct_sortOptions: "distinct (sortOptions act opts) = distinct opts"
  using mset_sortOptions [of act opts] by (rule mset_eq_imp_distinct_iff)

lemma mset_take_subset: "mset (take n xs) \<subseteq># mset xs"
proof -
  have "mset xs = mset (take n xs) + mset (drop n xs)"
    by (simp flip: mset_append)
  then show ?thesis by simp
qed

section \<open>The component's state\<close>

lemma tab_match_empty: "tab_match [] tab"
  by (simp add: tab_match_def includes_str_Nil)

lemma filterOptions_empty: "filterOptions opts [] = opts"
  by (simp add: filterOptions_def tab_match_empty)

lemma sOptions_handleSearch:
  "sOptions (handleSearch val s) =
     take MaxOptionsToDisplay (sortOptions (activeSessionIdx s) (filterOptions (options s) val))"
  by (simp add: handleSearch_def Let_def filterOptions_empty)

lemma options_ranked_mount: "options_ranked (componentDidMount g)"
  by (simp add: options_ranked_def componentDidMount_def Let_def sortOptions_sorted)

lemma sortOptions_ranked_id:
  "options_ranked s \<Longrightarrow> sortOptions (activeSessionIdx s) (options s) = options s"
  unfolding options_ranked_def sortOptions_def by (rule array_sort_sorted_id)

lemma apply_event_frame:
  assumes "options_ranked s"
  shows "options (apply_event s e) = options s \<and>
         activeSessionIdx (apply_event s e) = activeSessionIdx s"
proof (cases e)
  case (Search val)
  then show ?thesis
    using sortOptions_ranked_id [OF assms] by (simp add: handleSearch_def Let_def)
next
  case (KeyDown key)
  then show ?thesis
    by (simp add: handleKeyDown_def closeModal_def setFocusedIndex_def handleSelect_def Let_def
        split: option.splits)
next
  case (Click index)
  then show ?thesis
    by (simp add: handleSelect_def closeModal_def split: option.splits)
next
  case DidUpdate
  then show ?thesis
    by (simp add: componentDidUpdate_def setFocusedIndex_def Let_def)
qed

lemma apply_event_ranked: "options_ranked s \<Longrightarrow> options_ranked (apply_event s e)"
  using apply_event_frame [of s e] by (simp add: options_ranked_def)

lemma run_frame: "options_ranked s \<Longrightarrow> options (run evs s) = options s"
proof (induction evs arbitrary: s)
  case Nil
  then show ?case by (simp add: run_def)
next
  case (Cons e evs)
  have "run (e # evs) s = run evs (apply_event s e)" by (simp add: run_def)
  then show ?case
    using Cons.IH [OF apply_event_ranked [OF Cons.prems]] apply_event_frame [OF Cons.prems]
    by simp
qed

subsection \<open>Where the cursor can be\<close>

lemma focus_inv_mount: "focus_inv (componentDidMount g)"
  by (simp add: focus_inv_def componentDidMount_def Let_def)

lemma focus_inv_step: "focus_inv s \<Longrightarrow> focus_inv (apply_event s e)"
proof (cases e)
  case (Search val)
  assume "focus_inv s"
  have "focusedIdx (handleSearch val s) = 0"
    by (simp add: handleSearch_def Let_def)
  with Search show ?thesis by (simp add: focus_inv_def)
next
  case (KeyDown key)
  assume "focus_inv s"
  then show ?thesis
    unfolding KeyDown
    by (auto simp: focus_inv_def handleKeyDown_def closeModal_def setFocusedIndex_def
        handleSelect_def calculateNewIndex_def Let_def split: option.splits if_splits)
next
  case (Click index)
  assume "focus_inv s"
  then show ?thesis
    unfolding Click
    by (auto simp: focus_inv_def handleSelect_def closeModal_def split: option.splits if_splits)
next
  case DidUpdate
  assume "focus_inv s"
  then show ?thesis
    unfolding DidUpdate
    by (auto simp: focus_inv_def componentDidUpdate_def setFocusedIndex_def Let_def
        split: if_splits)
qed

lemma focus_inv_run: "focus_inv s \<Longrightarrow> focus_inv (run evs s)"
proof (induction evs arbitrary: s)
  case Nil
  then show ?case by (simp add: run_def)
next
  case (Cons e evs)
  have "run (e # evs) s = run evs (apply_event s e)" by (simp add: run_def)
  then show ?case using Cons.IH [OF focus_inv_step [OF Cons.prems]] by simp
qed

text \<open>
  In every state a mounted component reaches, the cursor is inside the shown list, or the
  list is empty and the cursor is 0 or -1.
\<close>

lemma focusedIdx_reachable: "focus_inv (run evs (componentDidMount g))"
  by (rule focus_inv_run [OF focus_inv_mount])

section \<open>The filter\<close>

text \<open>
  Claim C1. For a query without a slash the filter should match exactly when the
  lower-cased session name or the lower-cased tab name contains the lower-cased query.
  \<^verbatim>\<open>filterOptions\<close> lower-cases the two names and leaves the query as typed: the query
  \<^verbatim>\<open>LOG\<close> does not match the tab work/logs, while the case-insensitive reading matches it.
\<close>

theorem tab_match_upper_case_query:
  "CHR ''/'' \<notin> set ''LOG'' \<and> tab_match ''LOG'' work_logs = False \<and>
   spec_plain_match ''LOG'' work_logs = True"
  unfolding spec_plain_match_includes by code_simp

lemma tab_match_slash_parts:
  assumes "CHR ''/'' \<in> set q"
  shows "tab_match q tab \<longleftrightarrow>
     sublist (toLowerCase (trim (takeWhile (\<lambda>x. x \<noteq> CHR ''/'') q)))
        (toLowerCase (sessionName tab)) \<and>
     sublist (toLowerCase (trim (takeWhile (\<lambda>x. x \<noteq> CHR ''/'')
        (tl (dropWhile (\<lambda>x. x \<noteq> CHR ''/'') q)))))
        (toLowerCase (screenName tab))"
proof -
  let ?rest = "tl (dropWhile (\<lambda>x. x \<noteq> CHR ''/'') q)"
  have sp: "split_str CHR ''/'' q =
      takeWhile (\<lambda>x. x \<noteq> CHR ''/'') q # split_str CHR ''/'' ?rest"
    using assms by (rule split_str_first)
  obtain p ps where r: "split_str CHR ''/'' ?rest = p # ps"
    using split_str_not_Nil [of "CHR ''/''" ?rest] by (cases "split_str CHR ''/'' ?rest") auto
  have p: "p = takeWhile (\<lambda>x. x \<noteq> CHR ''/'') ?rest"
    using hd_split_str [of "CHR ''/''" ?rest] r by simp
  have inc: "includes_str q ''/''"
    using assms by (simp add: includes_slash)
  have "tab_match q tab \<longleftrightarrow>
     includes_str (toLowerCase (sessionName tab))
        (toLowerCase (trim (takeWhile (\<lambda>x. x \<noteq> CHR ''/'') q))) \<and>
     includes_str (toLowerCase (screenName tab))
        (toLowerCase (trim (takeWhile (\<lambda>x. x \<noteq> CHR ''/'') ?rest)))"
    by (simp add: tab_match_def inc sp r p destructure_def Let_def)
  then show ?thesis
    by (simp only: includes_str_sublist)
qed

text \<open>
  Claim C4, as stated: the tab query is everything after the first slash. The query
  \<^verbatim>\<open>work/build/zzz\<close> matches the tab work/build, although the tab name does not contain
  \<^verbatim>\<open>build/zzz\<close>: \<^verbatim>\<open>split\<close> cuts at every slash and the third piece is dropped.
\<close>

theorem tab_match_second_slash_counterexample:
  "CHR ''/'' \<in> set ''work/build/zzz'' \<and> tab_match ''work/build/zzz'' work_build \<and>
   \<not> spec_slash_match ''work/build/zzz'' work_build"
  unfolding spec_slash_match_includes by code_simp

text \<open>
  Claim C4, amended. For a query with at least one slash, the session query is the text
  before the first slash and the tab query is the text between the first slash and the
  next one (or the end of the query); both are trimmed and lower-cased, and the option
  matches exactly when its lower-cased session name contains the session query and its
  lower-cased tab name contains the tab query. With exactly one slash this is the match
  on everything after the first slash.
\<close>

theorem tab_match_slash:
  assumes "CHR ''/'' \<in> set q"
  shows "(tab_match q tab \<longleftrightarrow>
     sublist (toLowerCase (trim (takeWhile (\<lambda>x. x \<noteq> CHR ''/'') q)))
        (toLowerCase (sessionName tab)) \<and>
     sublist (toLowerCase (trim (takeWhile (\<lambda>x. x \<noteq> CHR ''/'')
        (tl (dropWhile (\<lambda>x. x \<noteq> CHR ''/'') q)))))
        (toLowerCase (screenName tab))) \<and>
   (CHR ''/'' \<notin> set (tl (dropWhile (\<lambda>x. x \<noteq> CHR ''/'') q)) \<longrightarrow>
      tab_match q tab = spec_slash_match q tab)"
proof (intro conjI impI)
  show "tab_match q tab \<longleftrightarrow>
     sublist (toLowerCase (trim (takeWhile (\<lambda>x. x \<noteq> CHR ''/'') q)))
        (toLowerCase (sessionName tab)) \<and>
     sublist (toLowerCase (trim (takeWhile (\<lambda>x. x \<noteq> CHR ''/'')
        (tl (dropWhile (\<lambda>x. x \<noteq> CHR ''/'') q)))))
        (toLowerCase (screenName tab))"
    using assms by (rule tab_match_slash_parts)
next
  let ?rest = "tl (dropWhile (\<lambda>x. x \<noteq> CHR ''/'') q)"
  assume "CHR ''/'' \<notin> set ?rest"
  then have "\<forall>x\<in>set ?rest. x \<noteq> CHR ''/''" by blast
  then have one: "takeWhile (\<lambda>x. x \<noteq> CHR ''/'') ?rest = ?rest"
    by (simp only: takeWhile_eq_all_conv)
  show "tab_match q tab = spec_slash_match q tab"
    unfolding tab_match_slash_parts [OF assms] one spec_slash_match_def Let_def ..
qed

theorem tab_match_slash_witness:
  "CHR ''/'' \<in> set '' Work / Build '' \<and> tab_match '' Work / Build '' work_build \<and>
   spec_slash_match '' Work / Build '' work_build"
proof -
  have h: "CHR ''/'' \<in> set '' Work / Build ''" by simp
  have s: "spec_slash_match '' Work / Build '' work_build"
    unfolding spec_slash_match_includes by code_simp
  have n: "CHR ''/'' \<notin> set (tl (dropWhile (\<lambda>x. x \<noteq> CHR ''/'') '' Work / Build ''))"
    by simp
  have eq: "tab_match '' Work / Build '' work_build =
      spec_slash_match '' Work / Build '' work_build"
    by (rule mp [OF conjunct2 [OF tab_match_slash [OF h]] n])
  have tm: "tab_match '' Work / Build '' work_build"
    using eq s by (rule iffD2)
  show ?thesis
    by (intro conjI) (rule h tm s)+
qed

section \<open>The ranking\<close>

text \<open>
  Claim C2. \<^verbatim>\<open>sortOptions\<close> returns the options it was given, each as often as it was
  given, in this order: no option outside the active session stands before an option of
  the active session; two options of the active session stand in ascending order of
  \<open>screenIdx\<close>; and two options outside the active session stand in ascending order of
  \<open>sessionIdx\<close>, and of \<open>screenIdx\<close> when the sessions are the same. So every option of
  the active session stands before every option outside it, whatever their \<open>screenIdx\<close>.
\<close>

theorem sortOptions_ranked:
  "mset (sortOptions act opts) = mset opts \<and>
   (\<forall>i j. i < j \<and> j < length (sortOptions act opts) \<longrightarrow>
      (sessionIdx (sortOptions act opts ! j) = act \<longrightarrow>
         sessionIdx (sortOptions act opts ! i) = act) \<and>
      (sessionIdx (sortOptions act opts ! i) = act \<and>
       sessionIdx (sortOptions act opts ! j) = act \<longrightarrow>
         screenIdx (sortOptions act opts ! i) \<le> screenIdx (sortOptions act opts ! j)) \<and>
      (sessionIdx (sortOptions act opts ! i) \<noteq> act \<and>
       sessionIdx (sortOptions act opts ! j) \<noteq> act \<longrightarrow>
         sessionIdx (sortOptions act opts ! i) < sessionIdx (sortOptions act opts ! j) \<or>
         (sessionIdx (sortOptions act opts ! i) = sessionIdx (sortOptions act opts ! j) \<and>
          screenIdx (sortOptions act opts ! i) \<le> screenIdx (sortOptions act opts ! j)))) \<and>
   (\<forall>i j. i < length (sortOptions act opts) \<and> j < length (sortOptions act opts) \<and>
      sessionIdx (sortOptions act opts ! i) = act \<and>
      sessionIdx (sortOptions act opts ! j) \<noteq> act \<longrightarrow> i < j)"
proof (intro conjI allI impI)
  show "mset (sortOptions act opts) = mset opts"
    by (rule mset_sortOptions)
next
  fix i j
  assume ij: "i < j \<and> j < length (sortOptions act opts)"
  define a where "a = sortOptions act opts ! i"
  define b where "b = sortOptions act opts ! j"
  have le: "compareOptions act a b \<le> 0"
    using sortOptions_sorted [of act opts] ij
    by (simp add: sorted_wrt_iff_nth_less a_def b_def)
  {
    assume "sessionIdx (sortOptions act opts ! j) = act"
    then show "sessionIdx (sortOptions act opts ! i) = act"
      using le by (simp add: compareOptions_def Let_def a_def b_def split: if_splits)
  }
  {
    assume "sessionIdx (sortOptions act opts ! i) = act \<and>
            sessionIdx (sortOptions act opts ! j) = act"
    then show "screenIdx (sortOptions act opts ! i) \<le> screenIdx (sortOptions act opts ! j)"
      using le by (simp add: compareOptions_def Let_def a_def b_def split: if_splits)
  }
  {
    assume "sessionIdx (sortOptions act opts ! i) \<noteq> act \<and>
            sessionIdx (sortOptions act opts ! j) \<noteq> act"
    then show "sessionIdx (sortOptions act opts ! i) < sessionIdx (sortOptions act opts ! j) \<or>
         (sessionIdx (sortOptions act opts ! i) = sessionIdx (sortOptions act opts ! j) \<and>
          screenIdx (sortOptions act opts ! i) \<le> screenIdx (sortOptions act opts ! j))"
      using le by (simp add: compareOptions_def Let_def a_def b_def split: if_splits)
  }
next
  fix i j
  assume h: "i < length (sortOptions act opts) \<and> j < length (sortOptions act opts) \<and>
      sessionIdx (sortOptions act opts ! i) = act \<and>
      sessionIdx (sortOptions act opts ! j) \<noteq> act"
  show "i < j"
  proof (rule ccontr)
    assume "\<not> i < j"
    moreover have "i \<noteq> j" using h by auto
    ultimately have ji: "j < i" by simp
    have "compareOptions act (sortOptions act opts ! j) (sortOptions act opts ! i) \<le> 0"
      using sortOptions_sorted [of act opts] ji h
      by (simp add: sorted_wrt_iff_nth_less)
    then show False
      using h by (simp add: compareOptions_def Let_def split: if_splits)
  qed
qed

theorem sortOptions_ranked_witness:
  "mset (sortOptions 0 [play_logs, work_build, work_logs])
     = mset [play_logs, work_build, work_logs] \<and>
   (0::nat) < 1 \<and> 1 < length (sortOptions 0 [play_logs, work_build, work_logs]) \<and>
   sessionIdx (sortOptions 0 [play_logs, work_build, work_logs] ! 1) = 0 \<and>
   sessionIdx (sortOptions 0 [play_logs, work_build, work_logs] ! 0) = 0 \<and>
   screenIdx (sortOptions 0 [play_logs, work_build, work_logs] ! 0)
     \<le> screenIdx (sortOptions 0 [play_logs, work_build, work_logs] ! 1)"
proof -
  have e: "sortOptions 0 [play_logs, work_build, work_logs] = [work_logs, work_build, play_logs]"
    by code_simp
  have i: "(0::nat) < 1" by simp
  have j: "1 < length (sortOptions 0 [play_logs, work_build, work_logs])"
    by (simp add: e)
  have b: "sessionIdx (sortOptions 0 [play_logs, work_build, work_logs] ! 1) = 0"
    unfolding e by (simp add: work_build_def)
  note t = sortOptions_ranked [of 0 "[play_logs, work_build, work_logs]"]
  have m: "mset (sortOptions 0 [play_logs, work_build, work_logs])
     = mset [play_logs, work_build, work_logs]"
    by (rule conjunct1 [OF t])
  note r = mp [OF spec [OF spec [OF conjunct1 [OF conjunct2 [OF t]]]] conjI [OF i j]]
  have a: "sessionIdx (sortOptions 0 [play_logs, work_build, work_logs] ! 0) = 0"
    by (rule mp [OF conjunct1 [OF r] b])
  have c: "screenIdx (sortOptions 0 [play_logs, work_build, work_logs] ! 0)
     \<le> screenIdx (sortOptions 0 [play_logs, work_build, work_logs] ! 1)"
    by (rule mp [OF conjunct1 [OF conjunct2 [OF r]] conjI [OF a b]])
  show ?thesis
    by (intro conjI) (rule m i j a b c)+
qed

text \<open>
  Claim C10. \<^verbatim>\<open>sortOptions\<close> returns a permutation of its argument. So what
  \<^verbatim>\<open>handleSearch\<close> shows is part of the options that match, all of them when at most 100
  match, and no option is shown twice when no option is held twice.
\<close>

theorem sortOptions_permutation:
  "mset (sortOptions act opts) = mset opts \<and>
   mset (sOptions (handleSearch val s)) \<subseteq># mset (filterOptions (options s) val) \<and>
   (length (filterOptions (options s) val) \<le> 100 \<longrightarrow>
      mset (sOptions (handleSearch val s)) = mset (filterOptions (options s) val)) \<and>
   (distinct (options s) \<longrightarrow> distinct (sOptions (handleSearch val s)))"
proof (intro conjI impI)
  show "mset (sortOptions act opts) = mset opts" by (rule mset_sortOptions)
  show "mset (sOptions (handleSearch val s)) \<subseteq># mset (filterOptions (options s) val)"
    using mset_take_subset [of MaxOptionsToDisplay
        "sortOptions (activeSessionIdx s) (filterOptions (options s) val)"]
    by (simp add: sOptions_handleSearch mset_sortOptions)
  show "mset (sOptions (handleSearch val s)) = mset (filterOptions (options s) val)"
    if "length (filterOptions (options s) val) \<le> 100"
    using that
    by (simp add: sOptions_handleSearch MaxOptionsToDisplay_def length_sortOptions
        mset_sortOptions)
  show "distinct (sOptions (handleSearch val s))" if "distinct (options s)"
    using that
    by (simp add: sOptions_handleSearch distinct_sortOptions filterOptions_def)
qed

theorem sortOptions_permutation_witness:
  "distinct (options (componentDidMount example_model)) \<and>
   length (filterOptions (options (componentDidMount example_model)) ''log'') \<le> 100 \<and>
   mset (sOptions (handleSearch ''log'' (componentDidMount example_model)))
     = mset (filterOptions (options (componentDidMount example_model)) ''log'') \<and>
   distinct (sOptions (handleSearch ''log'' (componentDidMount example_model)))"
proof -
  have d: "distinct (options (componentDidMount example_model))"
    by code_simp
  have l: "length (filterOptions (options (componentDidMount example_model)) ''log'') \<le> 100"
    by code_simp
  note t = conjunct2 [OF conjunct2
      [OF sortOptions_permutation [of 0 "[]" "''log''" "componentDidMount example_model"]]]
  have a: "mset (sOptions (handleSearch ''log'' (componentDidMount example_model)))
     = mset (filterOptions (options (componentDidMount example_model)) ''log'')"
    by (rule mp [OF conjunct1 [OF t] l])
  have b: "distinct (sOptions (handleSearch ''log'' (componentDidMount example_model)))"
    by (rule mp [OF conjunct2 [OF t] d])
  show ?thesis by (intro conjI d l a b)
qed

section \<open>Searching\<close>

text \<open>
  Claim C5. \<^verbatim>\<open>handleSearch\<close> shows the first 100 of the ranked options that match the
  text and puts the cursor on 0; for the empty text these are the first 100 of all the
  ranked options.
\<close>

theorem handleSearch_recomputes:
  "sOptions (handleSearch val s) =
     take 100 (sortOptions (activeSessionIdx s) (filter (tab_match val) (options s))) \<and>
   focusedIdx (handleSearch val s) = 0 \<and>
   sOptions (handleSearch [] s) = take 100 (sortOptions (activeSessionIdx s) (options s))"
proof (intro conjI)
  show "sOptions (handleSearch val s) =
     take 100 (sortOptions (activeSessionIdx s) (filter (tab_match val) (options s)))"
    using sOptions_handleSearch [of val s]
    by (simp add: filterOptions_def MaxOptionsToDisplay_def)
  show "focusedIdx (handleSearch val s) = 0"
    by (simp add: handleSearch_def Let_def)
  show "sOptions (handleSearch [] s) = take 100 (sortOptions (activeSessionIdx s) (options s))"
    using sOptions_handleSearch [of "[]" s]
    by (simp add: filterOptions_empty MaxOptionsToDisplay_def)
qed

theorem handleSearch_recomputes_witness:
  "sOptions (handleSearch ''log'' (componentDidMount example_model)) = [work_logs, play_logs] \<and>
   focusedIdx (handleSearch ''log'' (componentDidMount example_model)) = 0"
proof -
  have e: "take 100 (sortOptions (activeSessionIdx (componentDidMount example_model))
      (filter (tab_match ''log'') (options (componentDidMount example_model))))
      = [work_logs, play_logs]"
    by code_simp
  have a: "sOptions (handleSearch ''log'' (componentDidMount example_model))
      = [work_logs, play_logs]"
    using conjunct1 [OF handleSearch_recomputes [of "''log''" "componentDidMount example_model"]]
    unfolding e .
  have b: "focusedIdx (handleSearch ''log'' (componentDidMount example_model)) = 0"
    by (rule conjunct1 [OF conjunct2 [OF handleSearch_recomputes]])
  show ?thesis by (rule conjI [OF a b])
qed

text \<open>
  Claim C6. After \<^verbatim>\<open>componentDidMount\<close> and after every \<^verbatim>\<open>handleSearch\<close> at most 100
  options are shown, however many options there are and whatever the text is.
\<close>

theorem sOptions_truncated:
  "length (sOptions (componentDidMount g)) \<le> 100 \<and>
   length (sOptions (handleSearch val s)) \<le> 100"
proof
  show "length (sOptions (componentDidMount g)) \<le> 100"
    by (simp add: componentDidMount_def Let_def MaxOptionsToDisplay_def)
  show "length (sOptions (handleSearch val s)) \<le> 100"
    by (simp add: sOptions_handleSearch MaxOptionsToDisplay_def)
qed

theorem sOptions_truncated_witness:
  "length (options crowded) = 150 \<and>
   length (sOptions (componentDidMount example_model)) \<le> 100 \<and>
   length (sOptions (handleSearch [] crowded)) \<le> 100"
proof -
  have a: "length (options crowded) = 150"
    by (simp add: crowded_def many_options_def)
  show ?thesis by (rule conjI [OF a sOptions_truncated])
qed

text \<open>
  Claim C9. After \<^verbatim>\<open>componentDidMount\<close>, no search, key, click or update changes
  \<open>options\<close>: the elements and their order stay. (The in-place sort of the empty search
  meets an array that is sorted already.)
\<close>

theorem options_fixed: "options (run evs (componentDidMount g)) = options (componentDidMount g)"
  by (rule run_frame [OF options_ranked_mount])

theorem options_fixed_witness:
  "options (run [Search ''log'', KeyDown ''ArrowDown'', Search [], KeyDown ''Enter'']
      (componentDidMount example_model)) = [work_logs, work_build, play_logs]"
proof -
  have "options (componentDidMount example_model) = [work_logs, work_build, play_logs]"
    by code_simp
  then show ?thesis by (simp only: options_fixed)
qed

section \<open>Keys and selection\<close>

text \<open>
  Claim C7. \<^verbatim>\<open>handleSelect\<close> at an index of the shown list calls \<^verbatim>\<open>switchScreen\<close> with the
  screen and the session of the option there and then closes the modal; at any other
  index it leaves the component as it is and calls nothing. Enter selects at the cursor.
\<close>

theorem handleSelect_commit:
  "(0 \<le> index \<and> index < int (length (sOptions s)) \<longrightarrow>
      handleSelect index s =
        s\<lparr>calls := calls s @
            [SwitchScreen (screenId (sOptions s ! nat index)) (sessionId (sOptions s ! nat index)),
             PopModal]\<rparr>) \<and>
   (\<not> (0 \<le> index \<and> index < int (length (sOptions s))) \<longrightarrow> handleSelect index s = s) \<and>
   handleKeyDown ''Enter'' s = handleSelect (focusedIdx s) s"
  by (simp add: handleSelect_def array_get_def closeModal_def handleKeyDown_def)

theorem handleSelect_commit_witness:
  "handleSelect 1 searched_log =
     searched_log\<lparr>calls := calls searched_log @ [SwitchScreen ''t-plogs'' ''s-play'', PopModal]\<rparr> \<and>
   handleSelect 2 searched_log = searched_log \<and>
   handleSelect (- 1) searched_log = searched_log"
proof -
  have e: "sOptions searched_log = [work_logs, play_logs]"
    unfolding searched_log_def by code_simp
  have i: "(0::int) \<le> 1 \<and> 1 < int (length (sOptions searched_log))"
    unfolding e by simp
  have o: "\<not> ((0::int) \<le> 2 \<and> 2 < int (length (sOptions searched_log)))"
    unfolding e by simp
  have n: "\<not> ((0::int) \<le> - 1 \<and> - 1 < int (length (sOptions searched_log)))"
    by simp
  have sel: "sOptions searched_log ! nat 1 = play_logs"
    unfolding e by simp
  have a: "handleSelect 1 searched_log =
     searched_log\<lparr>calls := calls searched_log @ [SwitchScreen ''t-plogs'' ''s-play'', PopModal]\<rparr>"
    using mp [OF conjunct1 [OF handleSelect_commit] i] unfolding sel
    by (simp add: play_logs_def)
  have b: "handleSelect 2 searched_log = searched_log"
    by (rule mp [OF conjunct1 [OF conjunct2 [OF handleSelect_commit]] o])
  have c: "handleSelect (- 1) searched_log = searched_log"
    by (rule mp [OF conjunct1 [OF conjunct2 [OF handleSelect_commit]] n])
  show ?thesis by (intro conjI a b c)
qed

text \<open>
  Claim C3. The cursor should stay within 0 and the length of the shown list (0 when the
  list is empty). With an empty list \<^verbatim>\<open>calculateNewIndex\<close> computes the minimum of
  cursor + 1 and length - 1 for ArrowDown, which is -1: after a search that matches
  nothing, ArrowDown puts the cursor on -1, and the update cycle leaves it there.
\<close>

theorem arrow_down_on_empty_list_leaves_range:
  "sOptions (run [Search ''zzz''] (componentDidMount example_model)) = [] \<and>
   focusedIdx (run [Search ''zzz'', KeyDown ''ArrowDown''] (componentDidMount example_model)) = - 1 \<and>
   focusedIdx (run [Search ''zzz'', KeyDown ''ArrowDown'', DidUpdate]
      (componentDidMount example_model)) = - 1"
  by code_simp

text \<open>
  Claim C8. Without any option the arrow keys and Enter should change nothing. The shown
  list is empty, but ArrowDown moves the cursor from 0 to -1.
\<close>

theorem arrow_down_without_options_changes_state:
  "options (componentDidMount empty_model) = [] \<and>
   sOptions (componentDidMount empty_model) = [] \<and>
   focusedIdx (componentDidMount empty_model) = 0 \<and>
   focusedIdx (handleKeyDown ''ArrowDown'' (componentDidMount empty_model)) = - 1"
  by code_simp

end
